theory Spec2Isabelle
  imports Complex_Main
begin

section \<open>Data model (src/types/blog.ts)\<close>

text \<open>
  A JavaScript string is modelled as a \<open>string\<close>; a character stands for one code
  unit in the range U+0000 .. U+00FF. A \<open>Date\<close> is its time value, an \<open>int\<close> of
  milliseconds. An optional field (\<open>f?: T\<close>) is a \<open>T option\<close>, \<open>None\<close> standing
  for \<open>undefined\<close>.
\<close>

record blog_data =
  title :: string
  description :: string
  pubDatetime :: int
  modDatetime :: "int option"
  author :: string
  tags :: "string list"
  featured :: "bool option"
  draft :: "bool option"
  ogImage :: "string option"
  canonicalURL :: "string option"

text \<open>\<open>CollectionEntry<"blog">\<close>: the identifier, the front matter and the body.\<close>

record blog_post =
  post_id :: string
  data :: blog_data
  body :: string

subsection \<open>Numbers\<close>

text \<open>
  The only \<open>number\<close>s computed by the code are quotients and differences of array
  lengths. A finite value is kept as the exact rational; the three special values of
  IEEE arithmetic that a division by zero can produce are separate constructors.
  Rounding to a double is monotone and keeps two quotients with the same denominator
  below \<open>2^32\<close> apart, so every comparison made by the code has the same outcome on
  the exact values.
\<close>

datatype number = NaN | PosInf | NegInf | Num rat

text \<open>\<open>a / b\<close> for two array lengths.\<close>

definition js_div :: "nat \<Rightarrow> nat \<Rightarrow> number" where
  "js_div a b =
     (if b = 0 then (if a = 0 then NaN else PosInf)
      else Num (rat_of_nat a / rat_of_nat b))"

text \<open>\<open>x - y\<close>.\<close>

fun js_sub :: "number \<Rightarrow> number \<Rightarrow> number" where
  "js_sub NaN y = NaN"
| "js_sub x NaN = NaN"
| "js_sub PosInf PosInf = NaN"
| "js_sub NegInf NegInf = NaN"
| "js_sub PosInf y = PosInf"
| "js_sub NegInf y = NegInf"
| "js_sub (Num a) PosInf = NegInf"
| "js_sub (Num a) NegInf = PosInf"
| "js_sub (Num a) (Num b) = Num (a - b)"

text \<open>\<open>x > 0\<close>: false for \<open>NaN\<close>.\<close>

fun js_gt0 :: "number \<Rightarrow> bool" where
  "js_gt0 NaN = False"
| "js_gt0 PosInf = True"
| "js_gt0 NegInf = False"
| "js_gt0 (Num q) = (0 < q)"

subsection \<open>Array methods\<close>

text \<open>
  \<open>Array.prototype.slice(start, end)\<close> on integral arguments: a negative index
  counts from the end, both indices are clamped to the array. A fractional argument
  is truncated by the method before use, so integers cover every finite argument.
\<close>

definition js_slice :: "int \<Rightarrow> int \<Rightarrow> 'a list \<Rightarrow> 'a list" where
  "js_slice start stop xs =
     (let len = int (length xs);
          k = (if start < 0 then max (len + start) 0 else min start len);
          final = (if stop < 0 then max (len + stop) 0 else min stop len)
      in take (nat (final - k)) (drop (nat k) xs))"

text \<open>
  \<open>Array.prototype.sort(comparefn)\<close>. The method is stable, and a comparator result
  that is \<open>NaN\<close> counts as \<open>0\<close>. The model is the stable insertion sort: an element
  moves behind another one only where the comparator returns a positive number.
\<close>

fun js_insert :: "('a \<Rightarrow> 'a \<Rightarrow> number) \<Rightarrow> 'a \<Rightarrow> 'a list \<Rightarrow> 'a list" where
  "js_insert cmp x [] = [x]"
| "js_insert cmp x (y # ys) =
     (if js_gt0 (cmp x y) then y # js_insert cmp x ys else x # y # ys)"

definition js_sort :: "('a \<Rightarrow> 'a \<Rightarrow> number) \<Rightarrow> 'a list \<Rightarrow> 'a list" where
  "js_sort cmp xs = foldr (js_insert cmp) xs []"

subsection \<open>String methods\<close>

text \<open>\<open>String.prototype.toLowerCase\<close> on the code units U+0000 .. U+00FF.\<close>

definition lower_char :: "char \<Rightarrow> char" where
  "lower_char c =
     (let n = (of_char c :: nat)
      in if (65 \<le> n \<and> n \<le> 90) \<or> (192 \<le> n \<and> n \<le> 222 \<and> n \<noteq> 215)
         then char_of (n + 32) else c)"

definition toLowerCase :: "string \<Rightarrow> string" where
  "toLowerCase s = map lower_char s"

text \<open>\<open>s.includes(k)\<close>: \<open>k\<close> occurs in \<open>s\<close> as a contiguous substring.\<close>

fun starts_with :: "string \<Rightarrow> string \<Rightarrow> bool" where
  "starts_with s [] = True"
| "starts_with [] (k # ks) = False"
| "starts_with (c # cs) (k # ks) = (c = k \<and> starts_with cs ks)"

fun includes_str :: "string \<Rightarrow> string \<Rightarrow> bool" where
  "includes_str [] k = starts_with [] k"
| "includes_str (c # cs) k = (starts_with (c # cs) k \<or> includes_str cs k)"

text \<open>The white space of \<open>\s\<close> and of \<open>trim\<close> among the code units U+0000 .. U+00FF.\<close>

definition is_space :: "char \<Rightarrow> bool" where
  "is_space c = (of_char c \<in> {9, 10, 11, 12, 13, 32, 160 :: nat})"

definition trim :: "string \<Rightarrow> string" where
  "trim s = rev (dropWhile is_space (rev (dropWhile is_space s)))"

text \<open>
  \<open>s.split(/\s+/)\<close>: the pieces between the maximal runs of white space. The empty
  string gives one empty piece; a leading or a trailing run gives an empty piece at
  that end.
\<close>

function split_ws :: "string \<Rightarrow> string list" where
  "split_ws s =
     (case dropWhile (\<lambda>c. \<not> is_space c) s of
        [] \<Rightarrow> [takeWhile (\<lambda>c. \<not> is_space c) s]
      | r # rest \<Rightarrow>
          takeWhile (\<lambda>c. \<not> is_space c) s # split_ws (dropWhile is_space rest))"
  by pat_completeness auto
termination
proof (relation "measure length")
  show "wf (measure length)" by simp
next
  fix s :: string and r rest
  assume a: "dropWhile (\<lambda>c. \<not> is_space c) s = r # rest"
  have "length (dropWhile is_space rest) \<le> length rest"
    by (rule length_dropWhile_le)
  moreover have "length (r # rest) \<le> length s"
    using length_dropWhile_le [of "\<lambda>c. \<not> is_space c" s] a by simp
  ultimately show "(dropWhile is_space rest, s) \<in> measure length"
    by simp
qed

declare split_ws.simps [simp del]

text \<open>The decimal digits of a number, as a template literal prints them.\<close>

function show_nat :: "nat \<Rightarrow> string" where
  "show_nat n =
     (if n < 10 then [char_of (48 + n)]
      else show_nat (n div 10) @ [char_of (48 + n mod 10)])"
  by pat_completeness auto
termination
  by (relation "measure id") auto

declare show_nat.simps [simp del]

section \<open>BlogPostManager (src/utils/BlogPostManager.ts)\<close>

record related_post =
  post :: blog_post
  relevanceScore :: number

record reading_time_result =
  minutes :: nat
  text_rt :: string
  words :: nat

text \<open>
  The methods, as functions of the contents of \<open>this.posts\<close>. An omitted argument
  with a default value is \<open>None\<close>.
\<close>

definition getPostsByTag :: "blog_post list \<Rightarrow> string \<Rightarrow> blog_post list" where
  "getPostsByTag posts tag = filter (\<lambda>p. tag \<in> set (tags (data p))) posts"

definition getFeaturedPosts :: "blog_post list \<Rightarrow> blog_post list" where
  "getFeaturedPosts posts = filter (\<lambda>p. featured (data p) = Some True) posts"

definition getPostsByAuthor :: "blog_post list \<Rightarrow> string \<Rightarrow> blog_post list" where
  "getPostsByAuthor posts a = filter (\<lambda>p. author (data p) = a) posts"

definition getRecentPosts :: "blog_post list \<Rightarrow> int option \<Rightarrow> blog_post list" where
  "getRecentPosts posts limit =
     js_slice 0 (case limit of None \<Rightarrow> 5 | Some n \<Rightarrow> n) posts"

text \<open>
  \<open>findRelatedPosts\<close>: the callback given to \<open>map\<close>, which pairs a post with its
  score, and the comparator given to \<open>sort\<close>.
\<close>

definition score_post :: "string list \<Rightarrow> blog_post \<Rightarrow> related_post" where
  "score_post currentTags p =
     (let commonTags = filter (\<lambda>tag. tag \<in> set currentTags) (tags (data p));
          relevanceScore = js_div (length commonTags) (length currentTags)
      in \<lparr>post = p, relevanceScore = relevanceScore\<rparr>)"

definition by_score :: "related_post \<Rightarrow> related_post \<Rightarrow> number" where
  "by_score a b = js_sub (relevanceScore b) (relevanceScore a)"

definition findRelatedPosts ::
  "blog_post list \<Rightarrow> blog_post \<Rightarrow> int option \<Rightarrow> related_post list" where
  "findRelatedPosts posts currentPost limit =
     (let currentTags = tags (data currentPost);
          scoredPosts =
            js_sort by_score
              (filter (\<lambda>item. js_gt0 (relevanceScore item))
                 (map (score_post currentTags)
                    (filter (\<lambda>p. post_id p \<noteq> post_id currentPost) posts)))
      in js_slice 0 (case limit of None \<Rightarrow> 3 | Some n \<Rightarrow> n) scoredPosts)"

definition calculateReadingTime :: "string \<Rightarrow> reading_time_result" where
  "calculateReadingTime content =
     (let wordsPerMinute = 200 :: nat;
          words = length (split_ws (trim content));
          minutes = nat \<lceil>rat_of_nat words / rat_of_nat wordsPerMinute\<rceil>
      in \<lparr>minutes = minutes, text_rt = show_nat minutes @ '' min read'',
          words = words\<rparr>)"

definition getPostById :: "blog_post list \<Rightarrow> string \<Rightarrow> blog_post option" where
  "getPostById posts i = find (\<lambda>p. post_id p = i) posts"

definition searchPosts :: "blog_post list \<Rightarrow> string \<Rightarrow> blog_post list" where
  "searchPosts posts keyword =
     (let lowerKeyword = toLowerCase keyword
      in filter
           (\<lambda>p. includes_str (toLowerCase (title (data p))) lowerKeyword \<or>
                includes_str (toLowerCase (description (data p))) lowerKeyword \<or>
                list_ex (\<lambda>tag. includes_str (toLowerCase tag) lowerKeyword)
                  (tags (data p)))
           posts)"

definition getAllPosts :: "blog_post list \<Rightarrow> blog_post list" where
  "getAllPosts posts = posts"

definition getPostCount :: "blog_post list \<Rightarrow> nat" where
  "getPostCount posts = length posts"

subsection \<open>Sample posts\<close>

definition sample_post :: "string \<Rightarrow> int \<Rightarrow> string list \<Rightarrow> blog_post" where
  "sample_post i t ts =
     \<lparr>post_id = i,
      data = \<lparr>title = i, description = ''about '' @ i, pubDatetime = t,
              modDatetime = None, author = ''sat'', tags = ts, featured = None,
              draft = None, ogImage = None, canonicalURL = None\<rparr>,
      body = ''''\<rparr>"

subsection \<open>The relevance ranking in the words of the specification\<close>

text \<open>
  The score of a candidate: \<open>|tags(candidate) \<inter> tags(reference)| / |tags(reference)|\<close>,
  on the tag sets.
\<close>

definition tag_overlap :: "blog_post \<Rightarrow> blog_post \<Rightarrow> rat" where
  "tag_overlap candidate reference =
     rat_of_nat (card (set (tags (data candidate)) \<inter> set (tags (data reference)))) /
     rat_of_nat (card (set (tags (data reference))))"

text \<open>
  Exclude the reference post, score the others, discard score 0, sort by descending
  score with a stable sort, truncate to the limit.
\<close>

definition related_spec :: "blog_post list \<Rightarrow> blog_post \<Rightarrow> nat \<Rightarrow> (blog_post \<times> rat) list" where
  "related_spec posts reference limit =
     take limit
       (sort_key (\<lambda>(p, s). - s)
          (filter (\<lambda>(p, s). s \<noteq> 0)
             (map (\<lambda>p. (p, tag_overlap p reference))
                (filter (\<lambda>p. post_id p \<noteq> post_id reference) posts))))"

definition scored :: "blog_post \<times> rat \<Rightarrow> related_post" where
  "scored ps = \<lparr>post = fst ps, relevanceScore = Num (snd ps)\<rparr>"

text \<open>A score in the closed range from 0 to 1.\<close>

fun in_unit_range :: "number \<Rightarrow> bool" where
  "in_unit_range (Num q) = (0 \<le> q \<and> q \<le> 1)"
| "in_unit_range x = False"

section \<open>SEOMetadataBuilder (src/unnamed/part_000, the class of src/utils/SEOMetadataBuilder.ts)\<close>

subsection \<open>Objects and the heap\<close>

text \<open>
  Builders, metadata objects and their nested blocks are mutable objects that several
  references can share, so they live in a heap and are handled through references.
  The heap has one component per object type; a reference is valid once it is below
  \<open>next_ref\<close>.
\<close>

type_synonym ref = nat

text \<open>\<open>SeoMetadata["openGraph"]\<close> and \<open>SeoMetadata["twitter"]\<close>.\<close>

record open_graph =
  og_title :: "string option"
  og_description :: "string option"
  og_image :: "string option"
  og_type :: "string option"

record twitter_card =
  tw_card :: "string option"
  tw_site :: "string option"
  tw_creator :: "string option"

text \<open>
  A value of a \<open>Record<string, unknown>\<close>: a string, or a reference to a nested
  record.
\<close>

datatype jsvalue = JString string | JObject ref

text \<open>
  \<open>Partial<SeoMetadata>\<close>: every field may be absent; the nested blocks are held by
  reference.
\<close>

record seo_metadata =
  md_title :: "string option"
  md_description :: "string option"
  canonical :: "string option"
  openGraph :: "ref option"
  twitter :: "ref option"
  schema :: "ref option"

record heap =
  builders :: "ref \<Rightarrow> ref"
  metadatas :: "ref \<Rightarrow> seo_metadata"
  open_graphs :: "ref \<Rightarrow> open_graph"
  twitter_cards :: "ref \<Rightarrow> twitter_card"
  records :: "ref \<Rightarrow> (string \<times> jsvalue) list"
  next_ref :: ref

definition empty_metadata :: seo_metadata where
  "empty_metadata =
     \<lparr>md_title = None, md_description = None, canonical = None, openGraph = None,
      twitter = None, schema = None\<rparr>"

definition empty_heap :: heap where
  "empty_heap =
     \<lparr>builders = (\<lambda>r. 0), metadatas = (\<lambda>r. empty_metadata),
      open_graphs = (\<lambda>r. \<lparr>og_title = None, og_description = None, og_image = None,
                           og_type = None\<rparr>),
      twitter_cards = (\<lambda>r. \<lparr>tw_card = None, tw_site = None, tw_creator = None\<rparr>),
      records = (\<lambda>r. []), next_ref = 0\<rparr>"

text \<open>Object creation: the new object takes the next reference.\<close>

definition new_builder :: "ref \<Rightarrow> heap \<Rightarrow> ref \<times> heap" where
  "new_builder m h =
     (next_ref h, h\<lparr>builders := (builders h)(next_ref h := m), next_ref := Suc (next_ref h)\<rparr>)"

definition new_metadata :: "seo_metadata \<Rightarrow> heap \<Rightarrow> ref \<times> heap" where
  "new_metadata md h =
     (next_ref h, h\<lparr>metadatas := (metadatas h)(next_ref h := md), next_ref := Suc (next_ref h)\<rparr>)"

definition new_open_graph :: "open_graph \<Rightarrow> heap \<Rightarrow> ref \<times> heap" where
  "new_open_graph og h =
     (next_ref h,
      h\<lparr>open_graphs := (open_graphs h)(next_ref h := og), next_ref := Suc (next_ref h)\<rparr>)"

definition new_twitter_card :: "twitter_card \<Rightarrow> heap \<Rightarrow> ref \<times> heap" where
  "new_twitter_card tw h =
     (next_ref h,
      h\<lparr>twitter_cards := (twitter_cards h)(next_ref h := tw), next_ref := Suc (next_ref h)\<rparr>)"

definition new_record :: "(string \<times> jsvalue) list \<Rightarrow> heap \<Rightarrow> ref \<times> heap" where
  "new_record kvs h =
     (next_ref h, h\<lparr>records := (records h)(next_ref h := kvs), next_ref := Suc (next_ref h)\<rparr>)"

text \<open>\<open>this.metadata.f = v\<close>: an assignment to a field of the object at \<open>m\<close>.\<close>

definition assign_metadata :: "ref \<Rightarrow> (seo_metadata \<Rightarrow> seo_metadata) \<Rightarrow> heap \<Rightarrow> heap" where
  "assign_metadata m f h = h\<lparr>metadatas := (metadatas h)(m := f (metadatas h m))\<rparr>"

text \<open>
  \<open>o[k] = v\<close> on a record: the value of an existing key is replaced, a new key is
  added at the end.
\<close>

fun set_property :: "string \<Rightarrow> jsvalue \<Rightarrow> (string \<times> jsvalue) list \<Rightarrow> (string \<times> jsvalue) list" where
  "set_property k v [] = [(k, v)]"
| "set_property k v ((k', v') # kvs) =
     (if k' = k then (k, v) # kvs else (k', v') # set_property k v kvs)"

definition assign_property :: "ref \<Rightarrow> string \<Rightarrow> jsvalue \<Rightarrow> heap \<Rightarrow> heap" where
  "assign_property r k v h = h\<lparr>records := (records h)(r := set_property k v (records h r))\<rparr>"

definition assign_open_graph :: "ref \<Rightarrow> (open_graph \<Rightarrow> open_graph) \<Rightarrow> heap \<Rightarrow> heap" where
  "assign_open_graph r f h = h\<lparr>open_graphs := (open_graphs h)(r := f (open_graphs h r))\<rparr>"

definition assign_twitter_card :: "ref \<Rightarrow> (twitter_card \<Rightarrow> twitter_card) \<Rightarrow> heap \<Rightarrow> heap" where
  "assign_twitter_card r f h =
     h\<lparr>twitter_cards := (twitter_cards h)(r := f (twitter_cards h r))\<rparr>"

text \<open>
  Truthiness of an optional string: \<open>undefined\<close> and the empty string are falsy.
  \<open>a || b\<close> is \<open>a\<close> when \<open>a\<close> is truthy and \<open>b\<close> otherwise.
\<close>

fun truthy :: "string option \<Rightarrow> bool" where
  "truthy None = False"
| "truthy (Some s) = (s \<noteq> [])"

definition or_else :: "string option \<Rightarrow> string \<Rightarrow> string" where
  "or_else a b = (case a of None \<Rightarrow> b | Some s \<Rightarrow> if s \<noteq> [] then s else b)"

subsection \<open>The class\<close>

text \<open>
  Every method takes the heap and the reference of the receiver and returns its
  result with the heap it leaves. A setter returns the receiver (\<open>return this\<close>).
\<close>

datatype error = Error string

text \<open>\<open>new SEOMetadataBuilder()\<close>, with the field initialiser \<open>metadata = {}\<close>.\<close>

definition new_SEOMetadataBuilder :: "heap \<Rightarrow> ref \<times> heap" where
  "new_SEOMetadataBuilder h =
     (let (m, h1) = new_metadata empty_metadata h
      in new_builder m h1)"

definition setBasicMetadata :: "ref \<Rightarrow> string \<Rightarrow> string \<Rightarrow> heap \<Rightarrow> ref \<times> heap" where
  "setBasicMetadata this t d h =
     (let h1 = assign_metadata (builders h this) (\<lambda>md. md\<lparr>md_title := Some t\<rparr>) h;
          h2 = assign_metadata (builders h1 this) (\<lambda>md. md\<lparr>md_description := Some d\<rparr>) h1
      in (this, h2))"

definition setCanonical :: "ref \<Rightarrow> string \<Rightarrow> heap \<Rightarrow> ref \<times> heap" where
  "setCanonical this url h =
     (this, assign_metadata (builders h this) (\<lambda>md. md\<lparr>canonical := Some url\<rparr>) h)"

definition setOpenGraph :: "ref \<Rightarrow> ref option \<Rightarrow> heap \<Rightarrow> ref \<times> heap" where
  "setOpenGraph this og h =
     (this, assign_metadata (builders h this) (\<lambda>md. md\<lparr>openGraph := og\<rparr>) h)"

definition setTwitter :: "ref \<Rightarrow> ref option \<Rightarrow> heap \<Rightarrow> ref \<times> heap" where
  "setTwitter this tw h =
     (this, assign_metadata (builders h this) (\<lambda>md. md\<lparr>twitter := tw\<rparr>) h)"

definition setSchema :: "ref \<Rightarrow> ref \<Rightarrow> heap \<Rightarrow> ref \<times> heap" where
  "setSchema this s h =
     (this, assign_metadata (builders h this) (\<lambda>md. md\<lparr>schema := Some s\<rparr>) h)"

text \<open>
  \<open>SITE\<close> comes from the site configuration, which is outside the sources at hand,
  and \<open>Date.prototype.toISOString\<close> is a built-in: both are parameters.
\<close>

record site_config =
  website :: string
  site_title :: string

definition fromBlogPost ::
  "site_config \<Rightarrow> (int \<Rightarrow> string) \<Rightarrow> blog_post \<Rightarrow> string \<Rightarrow> heap \<Rightarrow> ref \<times> heap" where
  "fromBlogPost SITE toISOString p baseUrl h =
     (let (builder, h1) = new_SEOMetadataBuilder h;
          url = baseUrl @ ''/posts/'' @ post_id p;
          imageUrl = (case ogImage (data p) of
                        None \<Rightarrow> baseUrl @ ''/og.png''
                      | Some img \<Rightarrow> if img \<noteq> [] then baseUrl @ img else baseUrl @ ''/og.png'');
          (_, h2) = setBasicMetadata builder (title (data p)) (description (data p)) h1;
          (_, h3) = setCanonical builder (or_else (canonicalURL (data p)) url) h2;
          (og, h4) = new_open_graph
                       \<lparr>og_title = Some (title (data p)),
                        og_description = Some (description (data p)),
                        og_image = Some imageUrl, og_type = Some ''article''\<rparr> h3;
          (_, h5) = setOpenGraph builder (Some og) h4;
          (tw, h6) = new_twitter_card
                       \<lparr>tw_card = Some ''summary_large_image'',
                        tw_site = Some (website SITE),
                        tw_creator = Some (author (data p))\<rparr> h5;
          (_, h7) = setTwitter builder (Some tw) h6;
          (person, h8) = new_record
                       [(''@type'', JString ''Person''),
                        (''name'', JString (author (data p)))] h7;
          (logo, h9) = new_record
                       [(''@type'', JString ''ImageObject''),
                        (''url'', JString (baseUrl @ ''/favicon.svg''))] h8;
          (publisher, h10) = new_record
                       [(''@type'', JString ''Organization''),
                        (''name'', JString (site_title SITE)),
                        (''logo'', JObject logo)] h9;
          (schema, h11) = new_record
                       ([(''@context'', JString ''https://schema.org''),
                         (''@type'', JString ''BlogPosting''),
                         (''headline'', JString (title (data p))),
                         (''description'', JString (description (data p))),
                         (''image'', JString imageUrl),
                         (''datePublished'', JString (toISOString (pubDatetime (data p))))] @
                        (case modDatetime (data p) of
                           None \<Rightarrow> []
                         | Some t \<Rightarrow> [(''dateModified'', JString (toISOString t))]) @
                        [(''author'', JObject person),
                         (''publisher'', JObject publisher)]) h10;
          (_, h12) = setSchema builder schema h11
      in (builder, h12))"

text \<open>
  \<open>build()\<close> throws when the title or the description is falsy and returns the
  metadata object of the builder otherwise; the heap stays as it is.
\<close>

definition build :: "ref \<Rightarrow> heap \<Rightarrow> error + ref" where
  "build this h =
     (if \<not> truthy (md_title (metadatas h (builders h this))) \<or>
         \<not> truthy (md_description (metadatas h (builders h this)))
      then Inl (Error ''Title and description are required'')
      else Inr (builders h this))"

definition getPartial :: "ref \<Rightarrow> heap \<Rightarrow> ref" where
  "getPartial this h = builders h this"

text \<open>\<open>reset()\<close>: \<open>this.metadata = {}\<close>, a new empty object.\<close>

definition reset :: "ref \<Rightarrow> heap \<Rightarrow> ref \<times> heap" where
  "reset this h =
     (let (m, h1) = new_metadata empty_metadata h
      in (this, h1\<lparr>builders := (builders h1)(this := m)\<rparr>))"

text \<open>
  \<open>clone()\<close>: a new builder whose metadata is the object spread
  \<open>{ ...this.metadata }\<close>, a new object with the same value in every field.
\<close>

definition clone :: "ref \<Rightarrow> heap \<Rightarrow> ref \<times> heap" where
  "clone this h =
     (let (builder, h1) = new_SEOMetadataBuilder h;
          (m, h2) = new_metadata (metadatas h1 (builders h1 this)) h1
      in (builder, h2\<lparr>builders := (builders h2)(builder := m)\<rparr>))"

subsection \<open>Observing a builder\<close>

text \<open>
  What a builder has accumulated: the fields of its metadata object together with
  the contents of the nested blocks they refer to.
\<close>

definition accumulated ::
  "ref \<Rightarrow> heap \<Rightarrow>
   seo_metadata \<times> open_graph option \<times> twitter_card option \<times> (string \<times> jsvalue) list option" where
  "accumulated this h =
     (let md = metadatas h (builders h this)
      in (md, map_option (open_graphs h) (openGraph md),
          map_option (twitter_cards h) (twitter md),
          map_option (records h) (schema md)))"

text \<open>The calls that assign a field of the builder's own metadata, or replace it.\<close>

datatype setter =
    SetBasicMetadata string string
  | SetCanonical string
  | SetOpenGraph "ref option"
  | SetTwitter "ref option"
  | SetSchema ref
  | Reset

fun call :: "setter \<Rightarrow> ref \<Rightarrow> heap \<Rightarrow> heap" where
  "call (SetBasicMetadata t d) this h = snd (setBasicMetadata this t d h)"
| "call (SetCanonical url) this h = snd (setCanonical this url h)"
| "call (SetOpenGraph og) this h = snd (setOpenGraph this og h)"
| "call (SetTwitter tw) this h = snd (setTwitter this tw h)"
| "call (SetSchema s) this h = snd (setSchema this s h)"
| "call Reset this h = snd (reset this h)"

text \<open>A builder is live in a heap when it and its metadata object were created in it.\<close>

definition live :: "ref \<Rightarrow> heap \<Rightarrow> bool" where
  "live this h = (this < next_ref h \<and> builders h this < next_ref h)"

subsection \<open>Sample builders\<close>

definition sample_site :: site_config where
  "sample_site = \<lparr>website = ''https://x.test/'', site_title = ''X''\<rparr>"

text \<open>Stands for \<open>toISOString\<close> in the samples: the decimal time value.\<close>

definition sample_stamp :: "int \<Rightarrow> string" where
  "sample_stamp t = show_nat (nat t)"

text \<open>A post whose front matter gives the empty string as canonical URL.\<close>

definition blank_canonical_post :: blog_post where
  "blank_canonical_post =
     (sample_post ''p1'' 1 [''a''])
       \<lparr>data := (data (sample_post ''p1'' 1 [''a'']))\<lparr>canonicalURL := Some ''''\<rparr>\<rparr>"

definition own_canonical_post :: blog_post where
  "own_canonical_post =
     (sample_post ''p1'' 1 [''a''])
       \<lparr>data := (data (sample_post ''p1'' 1 [''a'']))
                  \<lparr>canonicalURL := Some ''https://y.test/p1''\<rparr>\<rparr>"

text \<open>\<open>new SEOMetadataBuilder().setBasicMetadata("", "d")\<close> in the empty heap.\<close>

definition blank_title_builder :: "ref \<times> heap" where
  "blank_title_builder =
     setBasicMetadata (fst (new_SEOMetadataBuilder empty_heap)) '''' ''d''
       (snd (new_SEOMetadataBuilder empty_heap))"

definition titled_builder :: "ref \<times> heap" where
  "titled_builder =
     setBasicMetadata (fst (new_SEOMetadataBuilder empty_heap)) ''t'' ''d''
       (snd (new_SEOMetadataBuilder empty_heap))"

text \<open>
  A builder holding a schema block, and its clone: the original, the clone, the
  schema block and the heap after \<open>clone()\<close>.
\<close>

definition cloned_builder :: "ref \<times> ref \<times> ref \<times> heap" where
  "cloned_builder =
     (let (b, h1) = new_SEOMetadataBuilder empty_heap;
          (s, h2) = new_record [(''@type'', JString ''BlogPosting'')] h1;
          (_, h3) = setSchema b s h2;
          (c, h4) = clone b h3
      in (b, c, s, h4))"

definition cloned_heap :: heap where
  "cloned_heap = snd (snd (snd cloned_builder))"

section \<open>BlogPostManager as an object\<close>

subsection \<open>Arrays in a store\<close>

text \<open>
  \<open>sort\<close> and \<open>push\<close> work in place, the other array methods return a new array.
  To tell which array a method writes, arrays live in a store and are handled through
  references; an array is live once its reference is below \<open>next_array\<close>.
\<close>

record array_store =
  post_arrays :: "ref \<Rightarrow> blog_post list"
  related_arrays :: "ref \<Rightarrow> related_post list"
  next_array :: ref

definition empty_store :: array_store where
  "empty_store = \<lparr>post_arrays = (\<lambda>r. []), related_arrays = (\<lambda>r. []), next_array = 0\<rparr>"

definition new_post_array :: "blog_post list \<Rightarrow> array_store \<Rightarrow> ref \<times> array_store" where
  "new_post_array xs s =
     (next_array s,
      s\<lparr>post_arrays := (post_arrays s)(next_array s := xs), next_array := Suc (next_array s)\<rparr>)"

definition new_related_array :: "related_post list \<Rightarrow> array_store \<Rightarrow> ref \<times> array_store" where
  "new_related_array xs s =
     (next_array s,
      s\<lparr>related_arrays := (related_arrays s)(next_array s := xs),
        next_array := Suc (next_array s)\<rparr>)"

text \<open>\<open>a.filter(f)\<close>, \<open>a.map(f)\<close>, \<open>a.slice(start, end)\<close>: a new array, \<open>a\<close> is only read.\<close>

definition posts_filter :: "(blog_post \<Rightarrow> bool) \<Rightarrow> ref \<Rightarrow> array_store \<Rightarrow> ref \<times> array_store" where
  "posts_filter f a s = new_post_array (filter f (post_arrays s a)) s"

definition posts_map ::
  "(blog_post \<Rightarrow> related_post) \<Rightarrow> ref \<Rightarrow> array_store \<Rightarrow> ref \<times> array_store" where
  "posts_map f a s = new_related_array (map f (post_arrays s a)) s"

definition posts_slice :: "int \<Rightarrow> int \<Rightarrow> ref \<Rightarrow> array_store \<Rightarrow> ref \<times> array_store" where
  "posts_slice start stop a s = new_post_array (js_slice start stop (post_arrays s a)) s"

definition related_filter ::
  "(related_post \<Rightarrow> bool) \<Rightarrow> ref \<Rightarrow> array_store \<Rightarrow> ref \<times> array_store" where
  "related_filter f a s = new_related_array (filter f (related_arrays s a)) s"

definition related_slice :: "int \<Rightarrow> int \<Rightarrow> ref \<Rightarrow> array_store \<Rightarrow> ref \<times> array_store" where
  "related_slice start stop a s =
     new_related_array (js_slice start stop (related_arrays s a)) s"

text \<open>\<open>a.sort(cmp)\<close> sorts \<open>a\<close> itself and returns it; \<open>a.push(x)\<close> extends \<open>a\<close> itself.\<close>

definition related_sort ::
  "(related_post \<Rightarrow> related_post \<Rightarrow> number) \<Rightarrow> ref \<Rightarrow> array_store \<Rightarrow> ref \<times> array_store" where
  "related_sort cmp a s =
     (a, s\<lparr>related_arrays := (related_arrays s)(a := js_sort cmp (related_arrays s a))\<rparr>)"

definition posts_push :: "ref \<Rightarrow> blog_post \<Rightarrow> array_store \<Rightarrow> array_store" where
  "posts_push a x s = s\<lparr>post_arrays := (post_arrays s)(a := post_arrays s a @ [x])\<rparr>"

subsection \<open>getSortedPosts\<close>

text \<open>
  Modelled from the spec: \<open>getSortedPosts\<close> (\<open>src/utils/getSortedPosts.ts\<close>, imported
  by the constructor, is not among the sources at hand). The specification of the
  Post Collection Accessor: from the input collection it "produces an internally
  retained copy sorted by descending publish timestamp (ties broken by original
  relative order -- a stable sort is required)".
\<close>

definition getSortedPosts :: "blog_post list \<Rightarrow> blog_post list" where
  "getSortedPosts posts = sort_key (\<lambda>p. - pubDatetime (data p)) posts"

subsection \<open>The class\<close>

text \<open>The object: its private field \<open>posts\<close> refers to an array.\<close>

record blog_post_manager =
  this_posts :: ref

text \<open>\<open>new BlogPostManager(posts)\<close>: the field gets the sorted copy, a new array.\<close>

definition new_BlogPostManager :: "ref \<Rightarrow> array_store \<Rightarrow> blog_post_manager \<times> array_store" where
  "new_BlogPostManager input s =
     (let (sorted_copy, s1) = new_post_array (getSortedPosts (post_arrays s input)) s
      in (\<lparr>this_posts = sorted_copy\<rparr>, s1))"

text \<open>Each method returns its result with the store it leaves.\<close>

definition BlogPostManager_getPostsByTag ::
  "blog_post_manager \<Rightarrow> string \<Rightarrow> array_store \<Rightarrow> ref \<times> array_store" where
  "BlogPostManager_getPostsByTag this tag s =
     posts_filter (\<lambda>p. tag \<in> set (tags (data p))) (this_posts this) s"

definition BlogPostManager_getFeaturedPosts ::
  "blog_post_manager \<Rightarrow> array_store \<Rightarrow> ref \<times> array_store" where
  "BlogPostManager_getFeaturedPosts this s =
     posts_filter (\<lambda>p. featured (data p) = Some True) (this_posts this) s"

definition BlogPostManager_getPostsByAuthor ::
  "blog_post_manager \<Rightarrow> string \<Rightarrow> array_store \<Rightarrow> ref \<times> array_store" where
  "BlogPostManager_getPostsByAuthor this a s =
     posts_filter (\<lambda>p. author (data p) = a) (this_posts this) s"

definition BlogPostManager_getRecentPosts ::
  "blog_post_manager \<Rightarrow> int option \<Rightarrow> array_store \<Rightarrow> ref \<times> array_store" where
  "BlogPostManager_getRecentPosts this limit s =
     posts_slice 0 (case limit of None \<Rightarrow> 5 | Some n \<Rightarrow> n) (this_posts this) s"

definition BlogPostManager_findRelatedPosts ::
  "blog_post_manager \<Rightarrow> blog_post \<Rightarrow> int option \<Rightarrow> array_store \<Rightarrow> ref \<times> array_store" where
  "BlogPostManager_findRelatedPosts this currentPost limit s =
     (let currentTags = tags (data currentPost);
          (others, s1) =
            posts_filter (\<lambda>p. post_id p \<noteq> post_id currentPost) (this_posts this) s;
          (items, s2) = posts_map (score_post currentTags) others s1;
          (positive, s3) = related_filter (\<lambda>item. js_gt0 (relevanceScore item)) items s2;
          (scoredPosts, s4) = related_sort by_score positive s3
      in related_slice 0 (case limit of None \<Rightarrow> 3 | Some n \<Rightarrow> n) scoredPosts s4)"

definition BlogPostManager_getPostById ::
  "blog_post_manager \<Rightarrow> string \<Rightarrow> array_store \<Rightarrow> blog_post option \<times> array_store" where
  "BlogPostManager_getPostById this i s =
     (find (\<lambda>p. post_id p = i) (post_arrays s (this_posts this)), s)"

definition BlogPostManager_searchPosts ::
  "blog_post_manager \<Rightarrow> string \<Rightarrow> array_store \<Rightarrow> ref \<times> array_store" where
  "BlogPostManager_searchPosts this keyword s =
     (let lowerKeyword = toLowerCase keyword
      in posts_filter
           (\<lambda>p. includes_str (toLowerCase (title (data p))) lowerKeyword \<or>
                includes_str (toLowerCase (description (data p))) lowerKeyword \<or>
                list_ex (\<lambda>tag. includes_str (toLowerCase tag) lowerKeyword)
                  (tags (data p)))
           (this_posts this) s)"

definition BlogPostManager_getAllPosts ::
  "blog_post_manager \<Rightarrow> array_store \<Rightarrow> ref \<times> array_store" where
  "BlogPostManager_getAllPosts this s = (this_posts this, s)"

definition BlogPostManager_getPostCount ::
  "blog_post_manager \<Rightarrow> array_store \<Rightarrow> nat \<times> array_store" where
  "BlogPostManager_getPostCount this s = (length (post_arrays s (this_posts this)), s)"

text \<open>
  \<open>groupPostsByYear\<close>: the \<open>Map\<close> is an association list in insertion order, from
  the year to the array of that year's posts. One round of the \<open>forEach\<close> loop takes
  the array of the post's year, or a new empty one, pushes the post and stores the
  array under the year. \<open>getFullYear\<close> is a built-in that depends on the local time
  zone: it is a parameter.
\<close>

fun map_set :: "int \<Rightarrow> ref \<Rightarrow> (int \<times> ref) list \<Rightarrow> (int \<times> ref) list" where
  "map_set k v [] = [(k, v)]"
| "map_set k v ((k', v') # kvs) =
     (if k' = k then (k, v) # kvs else (k', v') # map_set k v kvs)"

definition group_step ::
  "(int \<Rightarrow> int) \<Rightarrow> blog_post \<Rightarrow> (int \<times> ref) list \<times> array_store \<Rightarrow>
   (int \<times> ref) list \<times> array_store" where
  "group_step getFullYear p gs =
     (let (groupedPosts, s) = gs;
          year = getFullYear (pubDatetime (data p));
          (yearPosts, s1) = (case map_of groupedPosts year of
                               Some a \<Rightarrow> (a, s)
                             | None \<Rightarrow> new_post_array [] s);
          s2 = posts_push yearPosts p s1
      in (map_set year yearPosts groupedPosts, s2))"

definition BlogPostManager_groupPostsByYear ::
  "(int \<Rightarrow> int) \<Rightarrow> blog_post_manager \<Rightarrow> array_store \<Rightarrow> (int \<times> ref) list \<times> array_store" where
  "BlogPostManager_groupPostsByYear getFullYear this s =
     fold (group_step getFullYear) (post_arrays s (this_posts this)) ([], s)"

text \<open>The query operations, and the store a query leaves.\<close>

datatype query =
    ByTag string
  | ByAuthor string
  | Featured
  | Recent "int option"
  | Related blog_post "int option"
  | ById string
  | Search string
  | GroupByYear
  | Count
  | AllPosts

fun run_query :: "(int \<Rightarrow> int) \<Rightarrow> blog_post_manager \<Rightarrow> query \<Rightarrow> array_store \<Rightarrow> array_store" where
  "run_query gy this (ByTag tag) s = snd (BlogPostManager_getPostsByTag this tag s)"
| "run_query gy this (ByAuthor a) s = snd (BlogPostManager_getPostsByAuthor this a s)"
| "run_query gy this Featured s = snd (BlogPostManager_getFeaturedPosts this s)"
| "run_query gy this (Recent limit) s = snd (BlogPostManager_getRecentPosts this limit s)"
| "run_query gy this (Related p limit) s = snd (BlogPostManager_findRelatedPosts this p limit s)"
| "run_query gy this (ById i) s = snd (BlogPostManager_getPostById this i s)"
| "run_query gy this (Search k) s = snd (BlogPostManager_searchPosts this k s)"
| "run_query gy this GroupByYear s = snd (BlogPostManager_groupPostsByYear gy this s)"
| "run_query gy this Count s = snd (BlogPostManager_getPostCount this s)"
| "run_query gy this AllPosts s = snd (BlogPostManager_getAllPosts this s)"

text \<open>A sample store: one input array of three posts, two of them of the same time.\<close>

definition sample_store :: array_store where
  "sample_store =
     snd (new_post_array
            [sample_post ''p1'' 1 [''a''], sample_post ''p2'' 2 [''a'', ''b''],
             sample_post ''p3'' 1 [''c'']] empty_store)"

text \<open>Stands for \<open>getFullYear\<close> in the samples: years of 1000 time units.\<close>

definition sample_year :: "int \<Rightarrow> int" where
  "sample_year t = t div 1000"

section \<open>Properties of the array and string methods\<close>

lemma js_slice_0_nonneg:
  "0 \<le> n \<Longrightarrow> js_slice 0 n xs = take (nat n) xs"
  by (simp add: js_slice_def Let_def min_def)

lemma includes_empty: "includes_str s []"
  by (cases s) simp_all

lemma split_ws_nonempty: "split_ws s \<noteq> []"
  by (subst split_ws.simps) (simp split: list.split)

lemma split_ws_Nil: "split_ws [] = [[]]"
  by (subst split_ws.simps) simp

lemma trim_spaces: "list_all is_space s \<Longrightarrow> trim s = []"
proof -
  assume "list_all is_space s"
  then have d: "dropWhile is_space s = []"
    by (simp add: list_all_iff)
  show ?thesis
    by (simp only: trim_def d rev.simps dropWhile.simps)
qed

lemma ceiling_rat_real: "\<lceil>rat_of_nat n / 200\<rceil> = \<lceil>real n / 200\<rceil>"
proof -
  have "real_of_rat (rat_of_nat n / 200) = real n / 200"
    by (simp add: of_rat_divide)
  then show ?thesis
    by (metis of_rat_ceiling)
qed

section \<open>Properties of findRelatedPosts\<close>

lemma set_js_insert: "set (js_insert cmp x ys) = insert x (set ys)"
  by (induction ys) auto

lemma set_js_sort: "set (js_sort cmp xs) = set xs"
  by (induction xs) (simp_all add: js_sort_def set_js_insert)

lemma js_sort_Nil: "js_sort cmp [] = []"
  by (simp add: js_sort_def)

lemma js_sort_Cons: "js_sort cmp (x # xs) = js_insert cmp x (js_sort cmp xs)"
  by (simp add: js_sort_def)

lemma set_js_slice: "set (js_slice a b xs) \<subseteq> set xs"
proof -
  have "set (js_slice a b xs) \<subseteq>
        set (drop (nat (if a < 0 then max (int (length xs) + a) 0
                        else min a (int (length xs)))) xs)"
    unfolding js_slice_def Let_def by (rule set_take_subset)
  also have "\<dots> \<subseteq> set xs" by (rule set_drop_subset)
  finally show ?thesis .
qed

lemma js_slice_Nil: "js_slice a b [] = []"
  by (simp add: js_slice_def)

lemma score_post_post: "post (score_post ts p) = p"
  by (simp add: score_post_def Let_def)

lemma score_post_empty: "relevanceScore (score_post [] p) = NaN"
  by (simp add: score_post_def Let_def js_div_def)

lemma score_post_nonempty:
  "ts \<noteq> [] \<Longrightarrow>
   relevanceScore (score_post ts p) =
     Num (rat_of_nat (length (filter (\<lambda>tag. tag \<in> set ts) (tags (data p)))) /
          rat_of_nat (length ts))"
  by (simp add: score_post_def Let_def js_div_def)

text \<open>Every result is a scored post of the collection that passed both filters.\<close>

lemma findRelatedPosts_elem:
  assumes "r \<in> set (findRelatedPosts posts cur limit)"
  shows "\<exists>p \<in> set posts. post_id p \<noteq> post_id cur \<and>
           r = score_post (tags (data cur)) p \<and> js_gt0 (relevanceScore r)"
proof -
  from assms have "r \<in> set (js_sort by_score
              (filter (\<lambda>item. js_gt0 (relevanceScore item))
                 (map (score_post (tags (data cur)))
                    (filter (\<lambda>p. post_id p \<noteq> post_id cur) posts))))"
    unfolding findRelatedPosts_def Let_def by (rule subsetD [OF set_js_slice])
  then show ?thesis
    by (auto simp: set_js_sort)
qed

lemma findRelatedPosts_Nil:
  "tags (data cur) = [] \<Longrightarrow> findRelatedPosts posts cur limit = []"
  by (simp add: findRelatedPosts_def Let_def score_post_empty js_sort_Nil js_slice_Nil)

lemma filter_mem_le:
  assumes "distinct xs"
  shows "length (filter (\<lambda>t. t \<in> set ys) xs) \<le> length ys"
proof -
  have d: "distinct (filter (\<lambda>t. t \<in> set ys) xs)" using assms by simp
  have "length (filter (\<lambda>t. t \<in> set ys) xs) = card (set (filter (\<lambda>t. t \<in> set ys) xs))"
    by (rule distinct_card [OF d, symmetric])
  also have "\<dots> \<le> card (set ys)"
    by (rule card_mono) auto
  also have "\<dots> \<le> length ys" by (rule card_length)
  finally show ?thesis .
qed

subsection \<open>The code against the specification's ranking\<close>

lemma overlap_count:
  assumes "distinct (tags (data p))" and "distinct (tags (data r))"
  shows "rat_of_nat (length (filter (\<lambda>tag. tag \<in> set (tags (data r))) (tags (data p)))) /
           rat_of_nat (length (tags (data r))) = tag_overlap p r"
proof -
  have "length (filter (\<lambda>tag. tag \<in> set (tags (data r))) (tags (data p))) =
        card ({x. x \<in> set (tags (data r))} \<inter> set (tags (data p)))"
    using assms(1) by (rule distinct_length_filter)
  also have "\<dots> = card (set (tags (data p)) \<inter> set (tags (data r)))"
    by (simp add: Int_commute)
  finally have n: "length (filter (\<lambda>tag. tag \<in> set (tags (data r))) (tags (data p))) =
      card (set (tags (data p)) \<inter> set (tags (data r)))" .
  have d: "length (tags (data r)) = card (set (tags (data r)))"
    by (rule distinct_card [OF assms(2), symmetric])
  show ?thesis
    unfolding tag_overlap_def n d [symmetric] ..
qed

lemma tag_overlap_nonneg: "0 \<le> tag_overlap p r"
  by (simp add: tag_overlap_def)

lemma tag_overlap_no_tags: "tags (data r) = [] \<Longrightarrow> tag_overlap p r = 0"
  by (simp add: tag_overlap_def)

lemma score_post_scored:
  assumes "distinct (tags (data p))" and "distinct (tags (data r))"
    and "tags (data r) \<noteq> []"
  shows "score_post (tags (data r)) p = scored (p, tag_overlap p r)"
proof -
  have "relevanceScore (score_post (tags (data r)) p) = Num (tag_overlap p r)"
    using assms by (simp add: score_post_nonempty overlap_count)
  then show ?thesis
    by (simp add: score_post_def scored_def Let_def)
qed

lemma scored_filter_map:
  assumes "\<forall>p \<in> set xs. distinct (tags (data p))" and "distinct (tags (data r))"
    and "tags (data r) \<noteq> []"
  shows "filter (\<lambda>item. js_gt0 (relevanceScore item)) (map (score_post (tags (data r))) xs) =
         map scored (filter (\<lambda>(p, s). s \<noteq> 0) (map (\<lambda>p. (p, tag_overlap p r)) xs))"
  using assms(1)
proof (induction xs)
  case Nil
  then show ?case by simp
next
  case (Cons x xs)
  have sx: "score_post (tags (data r)) x = scored (x, tag_overlap x r)"
    using Cons.prems assms(2,3) by (simp add: score_post_scored)
  have g: "js_gt0 (relevanceScore (scored (x, tag_overlap x r))) = (tag_overlap x r \<noteq> 0)"
    using tag_overlap_nonneg [of x r] by (auto simp: scored_def)
  show ?case
    using Cons by (simp add: sx g)
qed

text \<open>On finite scores the comparator sort is the stable sort by descending score.\<close>

lemma js_insert_scored:
  "js_insert by_score (scored x) (map scored ys) =
   map scored (insort_key (\<lambda>(p, s). - s) x ys)"
  by (induction ys) (auto simp: by_score_def scored_def split: prod.splits)

lemma js_sort_scored:
  "js_sort by_score (map scored ys) = map scored (sort_key (\<lambda>(p, s). - s) ys)"
  by (induction ys) (simp_all add: js_sort_Nil js_sort_Cons js_insert_scored)

lemma findRelatedPosts_refines:
  assumes d: "\<forall>p \<in> set posts. distinct (tags (data p))"
    and r: "distinct (tags (data reference))" and l: "0 \<le> limit"
  shows "findRelatedPosts posts reference (Some limit) =
         map scored (related_spec posts reference (nat limit))"
proof (cases "tags (data reference) = []")
  case True
  have "filter (\<lambda>(p, s). s \<noteq> 0) (map (\<lambda>p. (p, tag_overlap p reference)) xs) = []" for xs
    by (induction xs) (simp_all add: tag_overlap_no_tags True)
  then show ?thesis
    by (simp add: findRelatedPosts_Nil True related_spec_def)
next
  case False
  let ?xs = "filter (\<lambda>p. post_id p \<noteq> post_id reference) posts"
  have dx: "\<forall>p \<in> set ?xs. distinct (tags (data p))" using d by simp
  show ?thesis
    unfolding findRelatedPosts_def related_spec_def Let_def
    by (simp add: scored_filter_map [OF dx r False] js_sort_scored
          js_slice_0_nonneg [OF l] take_map)
qed

text \<open>
  The ranking of the specification is ordered by descending score, and posts of equal
  score stay in the order of the collection.
\<close>

lemma related_spec_sorted:
  "sorted_wrt (\<lambda>a b. snd b \<le> snd a) (related_spec posts reference n)"
proof -
  let ?ys = "filter (\<lambda>(p, s). s \<noteq> 0)
               (map (\<lambda>p. (p, tag_overlap p reference))
                  (filter (\<lambda>p. post_id p \<noteq> post_id reference) posts))"
  have "sorted (map (\<lambda>(p, s). - s) (sort_key (\<lambda>(p, s). - s) ?ys))"
    by (rule sorted_sort_key)
  then have "sorted_wrt (\<lambda>a b. snd b \<le> snd a) (sort_key (\<lambda>(p, s). - s) ?ys)"
    by (simp add: sorted_map case_prod_beta)
  then show ?thesis
    unfolding related_spec_def by (rule sorted_wrt_take)
qed

lemma related_spec_stable:
  "filter (\<lambda>ps. snd ps = k) (related_spec posts reference (length posts)) =
   filter (\<lambda>ps. snd ps = k)
     (filter (\<lambda>(p, s). s \<noteq> 0)
        (map (\<lambda>p. (p, tag_overlap p reference))
           (filter (\<lambda>p. post_id p \<noteq> post_id reference) posts)))"
proof -
  let ?ys = "filter (\<lambda>(p, s). s \<noteq> 0)
               (map (\<lambda>p. (p, tag_overlap p reference))
                  (filter (\<lambda>p. post_id p \<noteq> post_id reference) posts))"
  have "length (sort_key (\<lambda>(p, s). - s) ?ys) \<le> length posts"
    by (simp add: le_trans [OF length_filter_le] le_trans [OF length_filter_le length_filter_le])
  then have t: "related_spec posts reference (length posts) = sort_key (\<lambda>(p, s). - s) ?ys"
    unfolding related_spec_def by (rule take_all)
  have "filter (\<lambda>ps. (\<lambda>(p, s). - s) ps = - k) (sort_key (\<lambda>(p, s). - s) ?ys) =
        filter (\<lambda>ps. (\<lambda>(p, s). - s) ps = - k) ?ys"
    by (rule sort_key_stable)
  then show ?thesis
    by (simp add: t case_prod_beta)
qed

section \<open>Properties of the builder\<close>

text \<open>What a setter or \<open>reset()\<close> writes: the receiver's own metadata object, or a new one.\<close>

lemmas heap_ops =
  new_SEOMetadataBuilder_def new_metadata_def new_builder_def
  setBasicMetadata_def setCanonical_def setOpenGraph_def setTwitter_def setSchema_def
  reset_def assign_metadata_def

lemma call_components:
  "open_graphs (call s x h) = open_graphs h"
  "twitter_cards (call s x h) = twitter_cards h"
  "records (call s x h) = records h"
  by (cases s; simp add: heap_ops Let_def split_def)+

lemma call_next_ref: "next_ref h \<le> next_ref (call s x h)"
  by (cases s) (simp_all add: heap_ops Let_def split_def)

lemma call_builders_other: "y \<noteq> x \<Longrightarrow> builders (call s x h) y = builders h y"
  by (cases s) (simp_all add: heap_ops Let_def split_def)

lemma call_builders_self:
  "builders (call s x h) x = builders h x \<or>
   (builders (call s x h) x = next_ref h \<and> next_ref (call s x h) = Suc (next_ref h))"
  by (cases s) (simp_all add: heap_ops Let_def split_def)

lemma call_metadatas_other:
  "m \<noteq> builders h x \<Longrightarrow> m < next_ref h \<Longrightarrow> metadatas (call s x h) m = metadatas h m"
  by (cases s) (simp_all add: heap_ops Let_def split_def)

lemma call_frame:
  assumes "live x h" and "live y h" and "x \<noteq> y" and "builders h x \<noteq> builders h y"
  shows "accumulated y (call s x h) = accumulated y h \<and>
         live x (call s x h) \<and> live y (call s x h) \<and>
         builders (call s x h) x \<noteq> builders (call s x h) y"
proof -
  let ?h = "call s x h"
  have bld: "builders ?h y = builders h y"
    using assms(3) by (simp add: call_builders_other)
  have my: "metadatas ?h (builders h y) = metadatas h (builders h y)"
    using assms(2,4) by (simp add: call_metadatas_other live_def)
  have acc: "accumulated y ?h = accumulated y h"
    by (simp add: accumulated_def bld my call_components)
  have ly: "live y ?h"
    using assms(2) call_next_ref [of h s x] by (simp add: live_def bld)
  have lx: "live x ?h"
    using assms(1) call_next_ref [of h s x] call_builders_self [of s x h]
    by (auto simp: live_def)
  have ne: "builders ?h x \<noteq> builders ?h y"
    using assms(2,4) call_builders_self [of s x h] by (auto simp: bld live_def)
  show ?thesis using acc ly lx ne by blast
qed

lemma calls_frame:
  assumes "live x h" and "live y h" and "x \<noteq> y" and "builders h x \<noteq> builders h y"
  shows "accumulated y (fold (\<lambda>s. call s x) ss h) = accumulated y h"
  using assms
proof (induction ss arbitrary: h)
  case Nil
  then show ?case by simp
next
  case (Cons s ss)
  from call_frame [OF Cons.prems, of s]
  have a: "accumulated y (call s x h) = accumulated y h"
    and l: "live x (call s x h)" "live y (call s x h)"
    and n: "builders (call s x h) x \<noteq> builders (call s x h) y"
    by blast+
  have "accumulated y (fold (\<lambda>s. call s x) ss (call s x h)) = accumulated y (call s x h)"
    using l Cons.prems(3) n by (rule Cons.IH)
  then show ?case by (simp add: a)
qed

lemma clone_facts:
  assumes "live b h"
  shows "fst (clone b h) \<noteq> b"
    and "live b (snd (clone b h))"
    and "live (fst (clone b h)) (snd (clone b h))"
    and "builders (snd (clone b h)) (fst (clone b h)) \<noteq> builders (snd (clone b h)) b"
    and "builders (snd (clone b h)) b = builders h b"
    and "metadatas (snd (clone b h)) (builders (snd (clone b h)) (fst (clone b h))) =
         metadatas h (builders h b)"
    and "metadatas (snd (clone b h)) (builders h b) = metadatas h (builders h b)"
    and "open_graphs (snd (clone b h)) = open_graphs h"
    and "twitter_cards (snd (clone b h)) = twitter_cards h"
    and "records (snd (clone b h)) = records h"
  using assms
  by (simp_all add: clone_def heap_ops live_def Let_def split_def)


lemma fromBlogPost_metadata:
  "canonical (metadatas (snd (fromBlogPost SITE toISO p baseUrl h))
       (getPartial (fst (fromBlogPost SITE toISO p baseUrl h))
          (snd (fromBlogPost SITE toISO p baseUrl h)))) =
     Some (or_else (canonicalURL (data p)) (baseUrl @ ''/posts/'' @ post_id p))"
  by (simp add: fromBlogPost_def new_SEOMetadataBuilder_def new_metadata_def new_builder_def
      setBasicMetadata_def setCanonical_def setOpenGraph_def setTwitter_def setSchema_def
      new_open_graph_def new_twitter_card_def new_record_def assign_metadata_def getPartial_def
      Let_def split_def)

section \<open>Properties of the manager object\<close>

lemmas array_ops =
  new_post_array_def new_related_array_def posts_filter_def posts_map_def posts_slice_def
  related_filter_def related_slice_def related_sort_def posts_push_def

lemmas manager_ops =
  BlogPostManager_getPostsByTag_def BlogPostManager_getFeaturedPosts_def
  BlogPostManager_getPostsByAuthor_def BlogPostManager_getRecentPosts_def
  BlogPostManager_findRelatedPosts_def BlogPostManager_getPostById_def
  BlogPostManager_searchPosts_def BlogPostManager_getAllPosts_def
  BlogPostManager_getPostCount_def

text \<open>The results of the methods are the values of the functions of the first part.\<close>

lemma getPostsByTag_result:
  "post_arrays (snd (BlogPostManager_getPostsByTag this tag s))
     (fst (BlogPostManager_getPostsByTag this tag s)) =
   getPostsByTag (post_arrays s (this_posts this)) tag"
  by (simp add: manager_ops array_ops getPostsByTag_def)

lemma getFeaturedPosts_result:
  "post_arrays (snd (BlogPostManager_getFeaturedPosts this s))
     (fst (BlogPostManager_getFeaturedPosts this s)) =
   getFeaturedPosts (post_arrays s (this_posts this))"
  by (simp add: manager_ops array_ops getFeaturedPosts_def)

lemma getPostsByAuthor_result:
  "post_arrays (snd (BlogPostManager_getPostsByAuthor this a s))
     (fst (BlogPostManager_getPostsByAuthor this a s)) =
   getPostsByAuthor (post_arrays s (this_posts this)) a"
  by (simp add: manager_ops array_ops getPostsByAuthor_def)

lemma getRecentPosts_result:
  "post_arrays (snd (BlogPostManager_getRecentPosts this limit s))
     (fst (BlogPostManager_getRecentPosts this limit s)) =
   getRecentPosts (post_arrays s (this_posts this)) limit"
  by (simp add: manager_ops array_ops getRecentPosts_def)

lemma findRelatedPosts_result:
  "related_arrays (snd (BlogPostManager_findRelatedPosts this p limit s))
     (fst (BlogPostManager_findRelatedPosts this p limit s)) =
   findRelatedPosts (post_arrays s (this_posts this)) p limit"
  by (simp add: manager_ops array_ops findRelatedPosts_def Let_def split_def)

lemma getPostById_result:
  "fst (BlogPostManager_getPostById this i s) = getPostById (post_arrays s (this_posts this)) i"
  by (simp add: manager_ops getPostById_def)

lemma searchPosts_result:
  "post_arrays (snd (BlogPostManager_searchPosts this k s))
     (fst (BlogPostManager_searchPosts this k s)) =
   searchPosts (post_arrays s (this_posts this)) k"
  by (simp add: manager_ops array_ops searchPosts_def Let_def)

lemma getAllPosts_result:
  "post_arrays (snd (BlogPostManager_getAllPosts this s))
     (fst (BlogPostManager_getAllPosts this s)) =
   getAllPosts (post_arrays s (this_posts this))"
  by (simp add: manager_ops getAllPosts_def)

lemma getPostCount_result:
  "fst (BlogPostManager_getPostCount this s) = getPostCount (post_arrays s (this_posts this))"
  by (simp add: manager_ops getPostCount_def)

text \<open>The loop of \<open>groupPostsByYear\<close> writes arrays that it created itself.\<close>

lemma map_of_map_set: "map_of (map_set k v kvs) = (map_of kvs)(k \<mapsto> v)"
  by (induction kvs) auto

lemma group_step_frame:
  assumes "a < n" and "n \<le> next_array s" and "\<forall>r \<in> ran (map_of g). n \<le> r \<and> r < next_array s"
    and "group_step gy p (g, s) = (g', s')"
  shows "post_arrays s' a = post_arrays s a \<and> n \<le> next_array s' \<and>
         (\<forall>r \<in> ran (map_of g'). n \<le> r \<and> r < next_array s')"
proof (cases "map_of g (gy (pubDatetime (data p)))")
  case None
  with assms(4) have g': "g' = map_set (gy (pubDatetime (data p))) (next_array s) g"
    and s': "s' = posts_push (next_array s) p (snd (new_post_array [] s))"
    by (auto simp: group_step_def Let_def array_ops)
  have 1: "post_arrays s' a = post_arrays s a"
    using assms(1,2) by (simp add: s' array_ops)
  have 2: "next_array s' = Suc (next_array s)"
    by (simp add: s' array_ops)
  have 3: "\<forall>r \<in> ran (map_of g'). n \<le> r \<and> r < next_array s'"
    using assms(2,3) None unfolding g' map_of_map_set 2
    by (auto simp: ran_def split: if_splits) 
  show ?thesis using 1 2 3 assms(2) by simp
next
  case (Some y)
  with assms(4) have g': "g' = map_set (gy (pubDatetime (data p))) y g"
    and s': "s' = posts_push y p s"
    by (auto simp: group_step_def Let_def)
  have y: "n \<le> y \<and> y < next_array s"
    using assms(3) Some by (auto simp: ran_def)
  have 1: "post_arrays s' a = post_arrays s a"
    using assms(1) y by (simp add: s' array_ops)
  have 2: "next_array s' = next_array s"
    by (simp add: s' array_ops)
  have 3: "\<forall>r \<in> ran (map_of g'). n \<le> r \<and> r < next_array s'"
    using assms(3) y unfolding g' map_of_map_set 2
    by (auto simp: ran_def split: if_splits)
  show ?thesis using 1 2 3 assms(2) by simp
qed

lemma group_fold_frame:
  assumes "a < n" and "n \<le> next_array s" and "\<forall>r \<in> ran (map_of g). n \<le> r \<and> r < next_array s"
  shows "post_arrays (snd (fold (group_step gy) ps (g, s))) a = post_arrays s a \<and>
         n \<le> next_array (snd (fold (group_step gy) ps (g, s)))"
  using assms
proof (induction ps arbitrary: g s)
  case Nil
  then show ?case by simp
next
  case (Cons p ps)
  obtain g' s' where st: "group_step gy p (g, s) = (g', s')"
    by (cases "group_step gy p (g, s)")
  from group_step_frame [OF Cons.prems st]
  have 1: "post_arrays s' a = post_arrays s a" and 2: "n \<le> next_array s'"
    and 3: "\<forall>r \<in> ran (map_of g'). n \<le> r \<and> r < next_array s'"
    by blast+
  from Cons.IH [OF Cons.prems(1) 2 3] show ?case
    by (simp add: st 1)
qed

lemma run_query_frame:
  assumes "this_posts this < next_array s"
  shows "post_arrays (run_query gy this q s) (this_posts this) = post_arrays s (this_posts this) \<and>
         next_array s \<le> next_array (run_query gy this q s)"
proof (cases q)
  case GroupByYear
  have "post_arrays (snd (fold (group_step gy) (post_arrays s (this_posts this)) ([], s)))
          (this_posts this) = post_arrays s (this_posts this) \<and>
        next_array s \<le>
          next_array (snd (fold (group_step gy) (post_arrays s (this_posts this)) ([], s)))"
    by (rule group_fold_frame [OF assms]) simp_all
  then show ?thesis
    by (simp add: GroupByYear BlogPostManager_groupPostsByYear_def)
qed (use assms in \<open>simp_all add: manager_ops array_ops Let_def split_def\<close>)

lemma run_queries_frame:
  assumes "this_posts this < next_array s"
  shows "post_arrays (fold (run_query gy this) qs s) (this_posts this) =
         post_arrays s (this_posts this)"
  using assms
proof (induction qs arbitrary: s)
  case Nil
  then show ?case by simp
next
  case (Cons q qs)
  from run_query_frame [OF Cons.prems, of gy q]
  have 1: "post_arrays (run_query gy this q s) (this_posts this) =
           post_arrays s (this_posts this)"
    and 2: "this_posts this < next_array (run_query gy this q s)"
    using Cons.prems by auto
  from Cons.IH [OF 2] show ?case by (simp add: 1)
qed

section \<open>getRecentPosts\<close>

text \<open>
  C8. \<open>getRecentPosts\<close> with limit 0 returns the empty sequence; with a limit of at
  least the number of posts it returns all of them; with any limit \<open>n \<ge> 0\<close> it
  returns the first \<open>n\<close> posts of the sorted copy.
\<close>

theorem getRecentPosts_prefix:
  "getRecentPosts posts (Some 0) = [] \<and>
   (int (length posts) \<le> n \<longrightarrow> getRecentPosts posts (Some n) = posts) \<and>
   (0 \<le> n \<longrightarrow> getRecentPosts posts (Some n) = take (nat n) posts)"
  by (simp add: getRecentPosts_def js_slice_0_nonneg)

theorem getRecentPosts_prefix_witness:
  "int (length [sample_post ''p1'' 2 [], sample_post ''p2'' 1 []]) \<le> 2 \<and> (0::int) \<le> 2 \<and>
   getRecentPosts [sample_post ''p1'' 2 [], sample_post ''p2'' 1 []] (Some 2) =
     [sample_post ''p1'' 2 [], sample_post ''p2'' 1 []] \<and>
   getRecentPosts [sample_post ''p1'' 2 [], sample_post ''p2'' 1 []] (Some 2) =
     take (nat 2) [sample_post ''p1'' 2 [], sample_post ''p2'' 1 []]"
  using getRecentPosts_prefix [of "[sample_post ''p1'' 2 [], sample_post ''p2'' 1 []]" 2]
  by simp

section \<open>searchPosts\<close>

text \<open>
  C9. \<open>searchPosts\<close> with the empty keyword returns every post held, in the order
  of \<open>this.posts\<close>: the empty string occurs in every title.
\<close>

theorem searchPosts_empty_keyword: "searchPosts posts [] = posts"
  by (simp add: searchPosts_def toLowerCase_def includes_empty)

section \<open>calculateReadingTime\<close>

text \<open>
  C10. For every content string \<open>calculateReadingTime\<close> reports at least one word
  and \<open>minutes = \<lceil>words / 200\<rceil>\<close>, which is at least 1; content that is empty or
  consists of white space only is reported as one word and one minute.
\<close>

theorem calculateReadingTime_bounds:
  "1 \<le> words (calculateReadingTime content) \<and>
   int (minutes (calculateReadingTime content)) =
     \<lceil>real (words (calculateReadingTime content)) / 200\<rceil> \<and>
   1 \<le> minutes (calculateReadingTime content) \<and>
   (list_all is_space content \<longrightarrow>
      words (calculateReadingTime content) = 1 \<and>
      minutes (calculateReadingTime content) = 1)"
proof -
  let ?w = "length (split_ws (trim content))"
  let ?z = "\<lceil>real ?w / 200\<rceil>"
  have w: "words (calculateReadingTime content) = ?w"
    by (simp add: calculateReadingTime_def Let_def)
  have m: "minutes (calculateReadingTime content) = nat ?z"
    by (simp add: calculateReadingTime_def Let_def ceiling_rat_real)
  have w0: "0 < ?w"
    by (simp only: length_greater_0_conv split_ws_nonempty not_False_eq_True)
  then have w1: "1 \<le> ?w" by linarith
  have "0 < real ?w / 200" using w0 by simp
  then have z1: "1 \<le> ?z" by linarith
  then have mz: "int (nat ?z) = ?z" by linarith
  have m1: "1 \<le> nat ?z" using z1 by linarith
  have sp: "?w = 1 \<and> nat ?z = 1" if "list_all is_space content"
  proof -
    have one: "?w = 1" using that by (simp add: trim_spaces split_ws_Nil)
    have "\<lceil>(1::real) / 200\<rceil> = 1" by (rule ceiling_unique) simp_all
    then show ?thesis by (simp add: one)
  qed
  show ?thesis
    unfolding w m using w1 mz m1 sp by blast
qed

theorem calculateReadingTime_bounds_witness:
  "list_all is_space '' '' \<and>
   words (calculateReadingTime '' '') = 1 \<and>
   minutes (calculateReadingTime '' '') = 1"
  using calculateReadingTime_bounds [of "'' ''"]
  by (simp add: is_space_def)

section \<open>findRelatedPosts\<close>

text \<open>
  C2. When the reference post has an empty tag list, \<open>findRelatedPosts\<close> returns the
  empty list for every collection and every limit: each quotient is \<open>0 / 0 = NaN\<close>,
  which the filter \<open>relevanceScore > 0\<close> rejects, so no such score reaches the result.
\<close>

theorem findRelatedPosts_no_tags:
  "tags (data currentPost) = [] \<Longrightarrow> findRelatedPosts posts currentPost limit = []"
  by (rule findRelatedPosts_Nil)

theorem findRelatedPosts_no_tags_witness:
  "tags (data (sample_post ''r'' 0 [])) = [] \<and>
   findRelatedPosts [sample_post ''p1'' 1 [''a'']] (sample_post ''r'' 0 []) (Some 3) = []"
  using findRelatedPosts_no_tags
    [of "sample_post ''r'' 0 []" "[sample_post ''p1'' 1 [''a'']]" "Some 3"]
  by (simp add: sample_post_def)

text \<open>
  C3, as stated: every element of the result carries a score in the closed range
  [0, 1]. It fails for a candidate that lists a tag twice: against the reference tags
  \<open>["a"]\<close> the candidate tags \<open>["a", "a"]\<close> score \<open>2 / 1\<close>.
\<close>

theorem findRelatedPosts_score_above_one:
  "\<not> list_all (\<lambda>r. in_unit_range (relevanceScore r))
       (findRelatedPosts [sample_post ''p'' 1 [''a'', ''a'']]
          (sample_post ''r'' 0 [''a'']) None)"
  by code_simp

text \<open>
  C3, amended: every element of the result carries a finite score greater than 0,
  and the score is at most 1 when the tag list of the element's post has no repeated
  entry.
\<close>

theorem findRelatedPosts_score_range:
  assumes "r \<in> set (findRelatedPosts posts currentPost limit)"
  shows "\<exists>q. relevanceScore r = Num q \<and> 0 < q \<and>
             (distinct (tags (data (post r))) \<longrightarrow> q \<le> 1)"
proof -
  let ?ts = "tags (data currentPost)"
  from findRelatedPosts_elem [OF assms] obtain p where
    r: "r = score_post ?ts p" and g: "js_gt0 (relevanceScore r)"
    by blast
  have ne: "?ts \<noteq> []"
    using g r by (auto simp: score_post_empty)
  let ?c = "length (filter (\<lambda>tag. tag \<in> set ?ts) (tags (data p)))"
  let ?q = "rat_of_nat ?c / rat_of_nat (length ?ts)"
  have s: "relevanceScore r = Num ?q"
    using ne r by (simp add: score_post_nonempty)
  have pos: "0 < ?q" using g s by simp
  have le: "?q \<le> 1" if "distinct (tags (data (post r)))"
  proof -
    have "distinct (tags (data p))" using that r by (simp add: score_post_post)
    then have "?c \<le> length ?ts" by (rule filter_mem_le)
    then have "rat_of_nat ?c \<le> rat_of_nat (length ?ts)" by simp
    moreover have "0 < rat_of_nat (length ?ts)" using ne by simp
    ultimately show ?thesis by (simp add: divide_le_eq_1)
  qed
  show ?thesis using s pos le by blast
qed

theorem findRelatedPosts_score_range_witness:
  "\<lparr>post = sample_post ''p1'' 1 [''a''], relevanceScore = Num (1 / 2)\<rparr>
     \<in> set (findRelatedPosts [sample_post ''p1'' 1 [''a'']]
              (sample_post ''r'' 0 [''a'', ''b'']) (Some 3)) \<and>
   distinct (tags (data (sample_post ''p1'' 1 [''a'']))) \<and>
   (\<exists>q. Num (1 / 2) = Num q \<and> 0 < q \<and> q \<le> 1)"
proof -
  have m: "\<lparr>post = sample_post ''p1'' 1 [''a''], relevanceScore = Num (1 / 2)\<rparr>
     \<in> set (findRelatedPosts [sample_post ''p1'' 1 [''a'']]
              (sample_post ''r'' 0 [''a'', ''b'']) (Some 3))"
    by code_simp
  have d: "distinct (tags (data (sample_post ''p1'' 1 [''a''])))"
    by (simp add: sample_post_def)
  show ?thesis
    using m d findRelatedPosts_score_range [OF m] by simp
qed

text \<open>
  C4, as stated: the score is the size of the intersection of the two tag sets over
  the size of the reference's tag set. It fails where a tag list repeats an entry: the
  code counts list entries, so the candidate tags \<open>["a", "a"]\<close> score \<open>2 / 2\<close> against
  the reference tags \<open>["a", "b"]\<close>, where the tag sets give \<open>1 / 2\<close>.
\<close>

theorem findRelatedPosts_counts_entries:
  "findRelatedPosts [sample_post ''p'' 1 [''a'', ''a'']]
     (sample_post ''r'' 0 [''a'', ''b'']) (Some 3) =
     [\<lparr>post = sample_post ''p'' 1 [''a'', ''a''], relevanceScore = Num 1\<rparr>] \<and>
   related_spec [sample_post ''p'' 1 [''a'', ''a'']]
     (sample_post ''r'' 0 [''a'', ''b'']) 3 =
     [(sample_post ''p'' 1 [''a'', ''a''], 1 / 2)]"
  by code_simp

text \<open>
  C4, amended: when no tag list repeats an entry and the limit is not negative,
  \<open>findRelatedPosts\<close> returns the ranking of the specification (reference excluded by
  identifier, score \<open>|tags(candidate) \<inter> tags(reference)| / |tags(reference)|\<close>, score 0
  discarded, stable sort by descending score, truncated to the limit), the omitted
  limit being 3; and on the three candidates tagged \<open>["a"]\<close>, \<open>["a", "b"]\<close>, \<open>["c"]\<close>
  with reference tags \<open>["a", "b"]\<close> and limit 3 the scores are \<open>[1, 1/2]\<close>.
\<close>

theorem findRelatedPosts_ranking:
  "((\<forall>p \<in> set posts. distinct (tags (data p))) \<and> distinct (tags (data reference)) \<longrightarrow>
      (0 \<le> limit \<longrightarrow>
         findRelatedPosts posts reference (Some limit) =
           map scored (related_spec posts reference (nat limit))) \<and>
      findRelatedPosts posts reference None =
        map scored (related_spec posts reference 3)) \<and>
   map relevanceScore
     (findRelatedPosts
        [sample_post ''p1'' 3 [''a''], sample_post ''p2'' 2 [''a'', ''b''],
         sample_post ''p3'' 1 [''c'']]
        (sample_post ''r'' 0 [''a'', ''b'']) (Some 3)) = [Num 1, Num (1 / 2)]"
proof -
  have dflt: "findRelatedPosts posts reference None = findRelatedPosts posts reference (Some 3)"
    by (simp add: findRelatedPosts_def)
  have ex: "map relevanceScore
     (findRelatedPosts
        [sample_post ''p1'' 3 [''a''], sample_post ''p2'' 2 [''a'', ''b''],
         sample_post ''p3'' 1 [''c'']]
        (sample_post ''r'' 0 [''a'', ''b'']) (Some 3)) = [Num 1, Num (1 / 2)]"
    by code_simp
  show ?thesis
    using findRelatedPosts_refines [of posts reference limit]
      findRelatedPosts_refines [of posts reference 3] dflt ex
    by simp
qed

theorem findRelatedPosts_ranking_witness:
  "distinct (tags (data (sample_post ''p1'' 3 [''a'']))) \<and>
   distinct (tags (data (sample_post ''p2'' 2 [''a'', ''b'']))) \<and>
   distinct (tags (data (sample_post ''r'' 0 [''a'', ''b'']))) \<and> (0::int) \<le> 1 \<and>
   findRelatedPosts [sample_post ''p1'' 3 [''a''], sample_post ''p2'' 2 [''a'', ''b'']]
     (sample_post ''r'' 0 [''a'', ''b'']) (Some 1) =
     map scored
       (related_spec [sample_post ''p1'' 3 [''a''], sample_post ''p2'' 2 [''a'', ''b'']]
          (sample_post ''r'' 0 [''a'', ''b'']) (nat 1)) \<and>
   findRelatedPosts [sample_post ''p1'' 3 [''a''], sample_post ''p2'' 2 [''a'', ''b'']]
     (sample_post ''r'' 0 [''a'', ''b'']) (Some 1) =
     [\<lparr>post = sample_post ''p2'' 2 [''a'', ''b''], relevanceScore = Num 1\<rparr>]"
proof -
  have d: "distinct (tags (data (sample_post ''p1'' 3 [''a'']))) \<and>
   distinct (tags (data (sample_post ''p2'' 2 [''a'', ''b'']))) \<and>
   distinct (tags (data (sample_post ''r'' 0 [''a'', ''b''])))"
    by (simp add: sample_post_def)
  have v: "findRelatedPosts [sample_post ''p1'' 3 [''a''], sample_post ''p2'' 2 [''a'', ''b'']]
     (sample_post ''r'' 0 [''a'', ''b'']) (Some 1) =
     [\<lparr>post = sample_post ''p2'' 2 [''a'', ''b''], relevanceScore = Num 1\<rparr>]"
    by code_simp
  show ?thesis
    using d v findRelatedPosts_ranking
      [of "[sample_post ''p1'' 3 [''a''], sample_post ''p2'' 2 [''a'', ''b'']]"
          "sample_post ''r'' 0 [''a'', ''b'']" 1]
    by simp
qed

section \<open>build\<close>

text \<open>
  C5, as stated: \<open>build()\<close> fails if and only if the accumulated title or description
  is absent. It also fails when both are present and one of them is the empty string:
  after \<open>setBasicMetadata("", "d")\<close> the title is present and \<open>build()\<close> throws.
\<close>

theorem build_present_but_empty:
  "md_title (metadatas (snd blank_title_builder)
      (getPartial (fst blank_title_builder) (snd blank_title_builder))) = Some '''' \<and>
   md_description (metadatas (snd blank_title_builder)
      (getPartial (fst blank_title_builder) (snd blank_title_builder))) = Some ''d'' \<and>
   build (fst blank_title_builder) (snd blank_title_builder) =
     Inl (Error ''Title and description are required'')"
  by code_simp

text \<open>
  C5, amended: \<open>build()\<close> fails with the error "Title and description are required"
  if and only if the accumulated title or description is absent or the empty string;
  it returns the builder's metadata object if and only if both are present and not
  empty; and \<open>build()\<close> on a newly constructed builder fails.
\<close>

theorem build_required_fields:
  "(build this h = Inl (Error ''Title and description are required'')) =
     (md_title (metadatas h (getPartial this h)) = None \<or>
      md_title (metadatas h (getPartial this h)) = Some [] \<or>
      md_description (metadatas h (getPartial this h)) = None \<or>
      md_description (metadatas h (getPartial this h)) = Some []) \<and>
   (build this h = Inr (getPartial this h)) =
     (\<exists>t d. md_title (metadatas h (getPartial this h)) = Some t \<and> t \<noteq> [] \<and>
            md_description (metadatas h (getPartial this h)) = Some d \<and> d \<noteq> []) \<and>
   build (fst (new_SEOMetadataBuilder h)) (snd (new_SEOMetadataBuilder h)) =
     Inl (Error ''Title and description are required'')"
proof -
  let ?md = "metadatas h (getPartial this h)"
  have t: "truthy x = (\<exists>s. x = Some s \<and> s \<noteq> [])" for x
    by (cases x) simp_all
  have 1: "(build this h = Inl (Error ''Title and description are required'')) =
     (md_title ?md = None \<or> md_title ?md = Some [] \<or>
      md_description ?md = None \<or> md_description ?md = Some [])"
    by (cases "md_title ?md"; cases "md_description ?md")
       (auto simp: build_def getPartial_def)
  have 2: "(build this h = Inr (getPartial this h)) =
     (\<exists>t d. md_title ?md = Some t \<and> t \<noteq> [] \<and> md_description ?md = Some d \<and> d \<noteq> [])"
    by (auto simp: build_def getPartial_def t)
  have 3: "build (fst (new_SEOMetadataBuilder h)) (snd (new_SEOMetadataBuilder h)) =
     Inl (Error ''Title and description are required'')"
    by (simp add: build_def heap_ops empty_metadata_def Let_def split_def)
  show ?thesis using 1 2 3 by blast
qed

theorem build_required_fields_witness:
  "md_title (metadatas (snd titled_builder)
      (getPartial (fst titled_builder) (snd titled_builder))) = Some ''t'' \<and>
   md_description (metadatas (snd titled_builder)
      (getPartial (fst titled_builder) (snd titled_builder))) = Some ''d'' \<and>
   build (fst titled_builder) (snd titled_builder) =
     Inr (getPartial (fst titled_builder) (snd titled_builder)) \<and>
   build (fst (new_SEOMetadataBuilder empty_heap)) (snd (new_SEOMetadataBuilder empty_heap)) =
     Inl (Error ''Title and description are required'')"
proof -
  have a: "md_title (metadatas (snd titled_builder)
      (getPartial (fst titled_builder) (snd titled_builder))) = Some ''t''"
    by code_simp
  have b: "md_description (metadatas (snd titled_builder)
      (getPartial (fst titled_builder) (snd titled_builder))) = Some ''d''"
    by code_simp
  show ?thesis
    using a b build_required_fields [of "fst titled_builder" "snd titled_builder"]
      build_required_fields [of 0 empty_heap]
    by simp
qed

section \<open>fromBlogPost\<close>

text \<open>
  C6, as stated: the canonical URL is the post's own whenever the post specifies one.
  It fails for a post whose \<open>canonicalURL\<close> is the empty string: the builder gets
  the default \<open>baseUrl + "/posts/" + id\<close>.
\<close>

theorem fromBlogPost_blank_canonical:
  "canonicalURL (data blank_canonical_post) = Some '''' \<and>
   canonical
     (metadatas (snd (fromBlogPost sample_site sample_stamp blank_canonical_post
                        ''https://x.test'' empty_heap))
        (getPartial (fst (fromBlogPost sample_site sample_stamp blank_canonical_post
                            ''https://x.test'' empty_heap))
           (snd (fromBlogPost sample_site sample_stamp blank_canonical_post
                   ''https://x.test'' empty_heap)))) =
     Some ''https://x.test/posts/p1''"
  by (simp add: fromBlogPost_metadata or_else_def blank_canonical_post_def sample_post_def)

text \<open>
  C6, amended: the builder made by \<open>fromBlogPost(post, baseUrl)\<close> has the canonical
  URL \<open>baseUrl + "/posts/" + id\<close> when the post specifies no canonical URL or the
  empty string, and the post's own canonical URL when it specifies a non-empty one.
\<close>

theorem fromBlogPost_canonical:
  "(canonicalURL (data p) = None \<or> canonicalURL (data p) = Some [] \<longrightarrow>
      canonical (metadatas (snd (fromBlogPost SITE toISO p baseUrl h))
         (getPartial (fst (fromBlogPost SITE toISO p baseUrl h))
            (snd (fromBlogPost SITE toISO p baseUrl h)))) =
        Some (baseUrl @ ''/posts/'' @ post_id p)) \<and>
   (\<forall>u. canonicalURL (data p) = Some u \<and> u \<noteq> [] \<longrightarrow>
      canonical (metadatas (snd (fromBlogPost SITE toISO p baseUrl h))
         (getPartial (fst (fromBlogPost SITE toISO p baseUrl h))
            (snd (fromBlogPost SITE toISO p baseUrl h)))) = Some u)"
  unfolding fromBlogPost_metadata by (auto simp: or_else_def)

theorem fromBlogPost_canonical_witness:
  "canonicalURL (data (sample_post ''p1'' 1 [''a''])) = None \<and>
   canonical
     (metadatas (snd (fromBlogPost sample_site sample_stamp (sample_post ''p1'' 1 [''a''])
                        ''https://x.test'' empty_heap))
        (getPartial (fst (fromBlogPost sample_site sample_stamp (sample_post ''p1'' 1 [''a''])
                            ''https://x.test'' empty_heap))
           (snd (fromBlogPost sample_site sample_stamp (sample_post ''p1'' 1 [''a''])
                   ''https://x.test'' empty_heap)))) =
     Some ''https://x.test/posts/p1'' \<and>
   canonicalURL (data own_canonical_post) = Some ''https://y.test/p1'' \<and>
   canonical
     (metadatas (snd (fromBlogPost sample_site sample_stamp own_canonical_post
                        ''https://x.test'' empty_heap))
        (getPartial (fst (fromBlogPost sample_site sample_stamp own_canonical_post
                            ''https://x.test'' empty_heap))
           (snd (fromBlogPost sample_site sample_stamp own_canonical_post
                   ''https://x.test'' empty_heap)))) =
     Some ''https://y.test/p1''"
proof -
  have a: "canonicalURL (data (sample_post ''p1'' 1 [''a''])) = None"
    by (simp add: sample_post_def)
  have b: "canonicalURL (data own_canonical_post) = Some ''https://y.test/p1''"
    by (simp add: own_canonical_post_def)
  have c: "post_id (sample_post ''p1'' 1 [''a'']) = ''p1''"
    by (simp add: sample_post_def)
  show ?thesis
    using a b c
      fromBlogPost_canonical [of "sample_post ''p1'' 1 [''a'']" sample_site sample_stamp
        "''https://x.test''" empty_heap]
      fromBlogPost_canonical [of own_canonical_post sample_site sample_stamp
        "''https://x.test''" empty_heap]
    by simp
qed

section \<open>clone\<close>

text \<open>
  C1, as stated: after \<open>c = b.clone()\<close>, mutating the schema block of \<open>c\<close> leaves
  the accumulated metadata of \<open>b\<close> unchanged. It fails: both metadata objects refer
  to the same schema block, so an assignment to a property of that block, reached
  through the clone, shows in the original. In the sample the original is builder 1,
  the clone is builder 4 and the schema block is record 2.
\<close>

theorem clone_shares_schema:
  "cloned_builder = (1, 4, 2, cloned_heap) \<and>
   schema (metadatas cloned_heap (getPartial 4 cloned_heap)) = Some 2 \<and>
   snd (snd (snd (accumulated 1 cloned_heap))) =
     Some [(''@type'', JString ''BlogPosting'')] \<and>
   snd (snd (snd (accumulated 1
     (assign_property 2 ''@type'' (JString ''Article'') cloned_heap)))) =
     Some [(''@type'', JString ''Article'')]"
proof -
  have 1: "fst cloned_builder = 1 \<and> fst (snd cloned_builder) = 4 \<and>
           fst (snd (snd cloned_builder)) = 2"
    by code_simp
  have 2: "schema (metadatas cloned_heap (getPartial 4 cloned_heap)) = Some 2"
    by code_simp
  have 3: "snd (snd (snd (accumulated 1 cloned_heap))) =
     Some [(''@type'', JString ''BlogPosting'')]"
    by code_simp
  have 4: "snd (snd (snd (accumulated 1
     (assign_property 2 ''@type'' (JString ''Article'') cloned_heap)))) =
     Some [(''@type'', JString ''Article'')]"
    by code_simp
  have "cloned_builder = (1, 4, 2, cloned_heap)"
    using 1 by (simp add: cloned_heap_def prod_eq_iff)
  then show ?thesis using 2 3 4 by simp
qed

text \<open>
  C1, amended: for a live builder \<open>b\<close>, \<open>clone()\<close> makes a different builder with a
  metadata object of its own that has the same value in every field, so that both
  have accumulated the same state and \<open>b\<close> is as before; afterwards any sequence of
  setter calls and \<open>reset()\<close> on the clone leaves what \<open>b\<close> has accumulated
  unchanged, and any such sequence on \<open>b\<close> leaves what the clone has accumulated
  unchanged. The nested blocks are shared by reference.
\<close>

theorem clone_shallow_copy:
  assumes "live b h"
  shows "fst (clone b h) \<noteq> b \<and>
         getPartial (fst (clone b h)) (snd (clone b h)) \<noteq> getPartial b (snd (clone b h)) \<and>
         metadatas (snd (clone b h)) (getPartial (fst (clone b h)) (snd (clone b h))) =
           metadatas h (getPartial b h) \<and>
         accumulated (fst (clone b h)) (snd (clone b h)) = accumulated b h \<and>
         accumulated b (snd (clone b h)) = accumulated b h \<and>
         (\<forall>ss. accumulated b (fold (\<lambda>s. call s (fst (clone b h))) ss (snd (clone b h))) =
                 accumulated b h) \<and>
         (\<forall>ss. accumulated (fst (clone b h)) (fold (\<lambda>s. call s b) ss (snd (clone b h))) =
                 accumulated b h)"
proof -
  let ?c = "fst (clone b h)" and ?h = "snd (clone b h)"
  note f = clone_facts [OF assms]
  have ab: "accumulated b ?h = accumulated b h"
    by (simp add: accumulated_def f)
  have ac: "accumulated ?c ?h = accumulated b h"
    by (simp add: accumulated_def f)
  have 1: "accumulated b (fold (\<lambda>s. call s ?c) ss ?h) = accumulated b h" for ss
    using calls_frame [OF f(3) f(2) f(1) f(4), of ss] by (simp add: ab)
  have 2: "accumulated ?c (fold (\<lambda>s. call s b) ss ?h) = accumulated b h" for ss
    using calls_frame [OF f(2) f(3) f(1) [symmetric] f(4) [symmetric], of ss] by (simp add: ac)
  show ?thesis
    using f(1) f(4) f(6) ab ac 1 2 by (simp add: getPartial_def)
qed

theorem clone_shallow_copy_witness:
  "live (fst titled_builder) (snd titled_builder) \<and>
   fst (clone (fst titled_builder) (snd titled_builder)) \<noteq> fst titled_builder \<and>
   accumulated (fst titled_builder)
     (fold (\<lambda>s. call s (fst (clone (fst titled_builder) (snd titled_builder))))
        [SetCanonical ''https://x.test/c'', Reset]
        (snd (clone (fst titled_builder) (snd titled_builder)))) =
     accumulated (fst titled_builder) (snd titled_builder)"
proof -
  have l: "live (fst titled_builder) (snd titled_builder)"
    by code_simp
  show ?thesis
    using l clone_shallow_copy [OF l] by blast
qed

section \<open>The retained sequence\<close>

text \<open>
  C7. For every input collection, the sequence retained by a new manager is ordered
  by non-increasing publish timestamp, posts of equal timestamp are in their input
  order, and no sequence of query operations (by tag, by author, featured, recent,
  related, by id, search, group by year, count, all posts) changes the retained
  sequence.
\<close>

theorem BlogPostManager_retained_sequence:
  "sorted_wrt (\<lambda>a b. pubDatetime (data b) \<le> pubDatetime (data a))
     (post_arrays (snd (new_BlogPostManager input s))
        (this_posts (fst (new_BlogPostManager input s)))) \<and>
   (\<forall>t. filter (\<lambda>p. pubDatetime (data p) = t)
          (post_arrays (snd (new_BlogPostManager input s))
             (this_posts (fst (new_BlogPostManager input s)))) =
        filter (\<lambda>p. pubDatetime (data p) = t) (post_arrays s input)) \<and>
   (\<forall>qs. post_arrays
           (fold (run_query gy (fst (new_BlogPostManager input s))) qs
              (snd (new_BlogPostManager input s)))
           (this_posts (fst (new_BlogPostManager input s))) =
         post_arrays (snd (new_BlogPostManager input s))
           (this_posts (fst (new_BlogPostManager input s))))"
proof -
  let ?m = "fst (new_BlogPostManager input s)" and ?s = "snd (new_BlogPostManager input s)"
  let ?xs = "post_arrays s input"
  have c: "post_arrays ?s (this_posts ?m) = sort_key (\<lambda>p. - pubDatetime (data p)) ?xs"
    by (simp add: new_BlogPostManager_def new_post_array_def getSortedPosts_def)
  have l: "this_posts ?m < next_array ?s"
    by (simp add: new_BlogPostManager_def new_post_array_def)
  have "sorted (map (\<lambda>p. - pubDatetime (data p)) (sort_key (\<lambda>p. - pubDatetime (data p)) ?xs))"
    by (rule sorted_sort_key)
  then have 1: "sorted_wrt (\<lambda>a b. pubDatetime (data b) \<le> pubDatetime (data a))
                  (post_arrays ?s (this_posts ?m))"
    by (simp add: c sorted_map)
  have 2: "filter (\<lambda>p. pubDatetime (data p) = t) (post_arrays ?s (this_posts ?m)) =
           filter (\<lambda>p. pubDatetime (data p) = t) ?xs" for t
    using sort_key_stable [of "\<lambda>p. - pubDatetime (data p)" "- t" ?xs]
    by (simp add: c)
  have 3: "post_arrays (fold (run_query gy ?m) qs ?s) (this_posts ?m) =
           post_arrays ?s (this_posts ?m)" for qs
    using l by (rule run_queries_frame)
  show ?thesis using 1 2 3 by blast
qed

theorem BlogPostManager_retained_sequence_witness:
  "map post_id
     (post_arrays (snd (new_BlogPostManager 0 sample_store))
        (this_posts (fst (new_BlogPostManager 0 sample_store)))) =
     [''p2'', ''p1'', ''p3''] \<and>
   post_arrays
     (fold (run_query sample_year (fst (new_BlogPostManager 0 sample_store)))
        [GroupByYear, Related (sample_post ''r'' 0 [''a'', ''b'']) None, Recent None]
        (snd (new_BlogPostManager 0 sample_store)))
     (this_posts (fst (new_BlogPostManager 0 sample_store))) =
   post_arrays (snd (new_BlogPostManager 0 sample_store))
     (this_posts (fst (new_BlogPostManager 0 sample_store)))"
proof -
  have v: "map post_id
     (post_arrays (snd (new_BlogPostManager 0 sample_store))
        (this_posts (fst (new_BlogPostManager 0 sample_store)))) =
     [''p2'', ''p1'', ''p3'']"
    by code_simp
  show ?thesis
    using v BlogPostManager_retained_sequence [of 0 sample_store sample_year]
    by blast
qed

end
